theory Spec2Isabelle
  imports Main
begin

section \<open>Python string primitives used by winget.py\<close>

text \<open>
  A Python \<open>str\<close> is modelled as a \<open>string\<close>; a \<open>char\<close> stands for a code point
  below 256.  On that range \<open>str.isspace\<close> (and the regular expression class \<open>\s\<close>)
  holds for exactly the twelve code points listed in \<open>isspace\<close>, \<open>\d\<close> holds for the
  ten ASCII digits, and \<open>str.splitlines\<close> breaks at the code points of \<open>is_linebreak\<close>.
\<close>

definition LF :: char where "LF = CHR 0x0A"
definition CR :: char where "CR = CHR 0x0D"

definition isspace :: "char \<Rightarrow> bool" where
  "isspace c = (c \<in> set [CHR 0x09, CHR 0x0A, CHR 0x0B, CHR 0x0C, CHR 0x0D, CHR 0x1C,
                          CHR 0x1D, CHR 0x1E, CHR 0x1F, CHR 0x20, CHR 0x85, CHR 0xA0])"

definition isdigit :: "char \<Rightarrow> bool" where
  "isdigit c = (c \<in> set ''0123456789'')"

definition is_linebreak :: "char \<Rightarrow> bool" where
  "is_linebreak c = (c \<in> set [CHR 0x0A, CHR 0x0B, CHR 0x0C, CHR 0x0D, CHR 0x1C,
                               CHR 0x1D, CHR 0x1E, CHR 0x85])"

text \<open>\<open>s.lstrip()\<close>, \<open>s.rstrip()\<close>, \<open>s.strip()\<close> and \<open>s.rstrip(chars)\<close>.\<close>

definition lstrip :: "string \<Rightarrow> string" where
  "lstrip s = dropWhile isspace s"

definition rstrip :: "string \<Rightarrow> string" where
  "rstrip s = rev (dropWhile isspace (rev s))"

definition strip :: "string \<Rightarrow> string" where
  "strip s = rstrip (lstrip s)"

definition rstrip_chars :: "string \<Rightarrow> string \<Rightarrow> string" where
  "rstrip_chars chars s = rev (dropWhile (\<lambda>c. c \<in> set chars) (rev s))"

text \<open>\<open>s.split(sep)\<close> for a separator of one character: never empty, \<open>''''\<close> gives \<open>['''']\<close>.\<close>

fun split :: "char \<Rightarrow> string \<Rightarrow> string list" where
  "split sep [] = [[]]"
| "split sep (c # cs) =
     (if c = sep then [] # split sep cs
      else (case split sep cs of p # ps \<Rightarrow> (c # p) # ps | [] \<Rightarrow> [[c]]))"

text \<open>\<open>sep.join(parts)\<close>.\<close>

fun join :: "string \<Rightarrow> string list \<Rightarrow> string" where
  "join sep [] = []"
| "join sep [p] = p"
| "join sep (p # q # ps) = p @ sep @ join sep (q # ps)"

text \<open>
  \<open>s.splitlines()\<close>: a line ends at a line break character, \<open>\r\n\<close> counts as one
  break, and text after the last break is a line only when it is not empty.  The second
  argument is the current line, reversed.
\<close>

fun splitlines_acc :: "string \<Rightarrow> string \<Rightarrow> string list" where
  "splitlines_acc [] cur = (if cur = [] then [] else [rev cur])"
| "splitlines_acc (c # cs) cur =
     (if c = CR \<and> cs \<noteq> [] \<and> hd cs = LF then rev cur # splitlines_acc (tl cs) []
      else if is_linebreak c then rev cur # splitlines_acc cs []
      else splitlines_acc cs (c # cur))"

definition splitlines :: "string \<Rightarrow> string list" where
  "splitlines s = splitlines_acc s []"

text \<open>\<open>s.startswith(p)\<close> and the slice \<open>s[len(p):]\<close>.\<close>

fun startswith :: "string \<Rightarrow> string \<Rightarrow> bool" where
  "startswith s [] = True"
| "startswith [] (p # ps) = False"
| "startswith (c # cs) (p # ps) = (c = p \<and> startswith cs ps)"

text \<open>
  The exceptions the modelled code raises.  \<open>ValueError\<close> and \<open>NameError\<close> are raised by
  the Python runtime, the others by the program or by \<open>subprocess\<close>.
\<close>

datatype error =
    FileNotFoundError string
  | RuntimeError string
  | OSError string
  | ValueError
  | NameError

text \<open>
  \<open>int(x)\<close> on a string of ASCII digits and \<open>str(n)\<close> on an integer.  Both raise
  \<open>ValueError\<close> when more than \<open>sys.get_int_max_str_digits()\<close> decimal digits are
  converted; the program leaves this limit at its default of 4300, and leading zeros of
  the string count.
\<close>

definition digit_val :: "char \<Rightarrow> int" where
  "digit_val c = int (of_char c) - 48"

definition int_of_digits :: "string \<Rightarrow> int" where
  "int_of_digits ds = foldl (\<lambda>n c. 10 * n + digit_val c) 0 ds"

fun str_nat :: "nat \<Rightarrow> string" where
  "str_nat n = (if n < 10 then [''0123456789'' ! n]
                else str_nat (n div 10) @ [''0123456789'' ! (n mod 10)])"

declare str_nat.simps [simp del]

definition str_int :: "int \<Rightarrow> string" where
  "str_int i = (if i < 0 then CHR ''-'' # str_nat (nat (- i)) else str_nat (nat i))"

definition int_max_str_digits :: nat where
  "int_max_str_digits = 4300"

definition py_int :: "string \<Rightarrow> error + int" where
  "py_int ds = (if length ds > int_max_str_digits then Inl ValueError
                else Inr (int_of_digits ds))"

definition py_str :: "int \<Rightarrow> error + string" where
  "py_str i = (if length (str_nat (nat \<bar>i\<bar>)) > int_max_str_digits then Inl ValueError
               else Inr (str_int i))"

text \<open>
  A generator expression \<open>f(x) for x in xs\<close> consumed in order: the first call that
  raises ends the evaluation.
\<close>

fun try_map :: "('a \<Rightarrow> error + 'b) \<Rightarrow> 'a list \<Rightarrow> error + 'b list" where
  "try_map f [] = Inr []"
| "try_map f (x # xs) =
     (case f x of
        Inl e \<Rightarrow> Inl e
      | Inr y \<Rightarrow> (case try_map f xs of Inl e \<Rightarrow> Inl e | Inr ys \<Rightarrow> Inr (y # ys)))"

section \<open>Dependency check: \<open>get_winget_state\<close>\<close>

datatype WingetState = MISSING | OUTDATED | OK

record CompletedProcess =
  returncode :: int
  stdout :: string
  stderr :: string

text \<open>
  \<open>_run_silent\<close> either raises (the executable cannot be started, or the timeout of
  five seconds expires) or returns a \<open>CompletedProcess\<close>.
\<close>

datatype run_outcome = Raised | Completed CompletedProcess

definition MIN_WINGET_VERSION :: "int list" where
  "MIN_WINGET_VERSION = [1, 12, 0]"

text \<open>
  The pattern \<open>(\d+)\.(\d+)\.(\d+)\<close> tried at the start of a string, giving the three
  groups.  Each \<open>\d+\<close> is greedy; giving back digits never helps, since the character
  after a shorter run is a digit and not the dot.
\<close>

definition match_version_at :: "string \<Rightarrow> string list option" where
  "match_version_at s =
     (let d1 = takeWhile isdigit s; r1 = dropWhile isdigit s in
      if d1 = [] then None else
      (case r1 of
         [] \<Rightarrow> None
       | x # s2 \<Rightarrow>
           if x \<noteq> CHR ''.'' then None else
           (let d2 = takeWhile isdigit s2; r2 = dropWhile isdigit s2 in
            if d2 = [] then None else
            (case r2 of
               [] \<Rightarrow> None
             | y # s3 \<Rightarrow>
                 if y \<noteq> CHR ''.'' then None else
                 (let d3 = takeWhile isdigit s3 in
                  if d3 = [] then None
                  else Some [d1, d2, d3])))))"

text \<open>\<open>re.search\<close>: the groups of the match at the leftmost position where one exists.\<close>

fun version_search :: "string \<Rightarrow> string list option" where
  "version_search [] = None"
| "version_search (c # cs) =
     (case match_version_at (c # cs) of
        Some groups \<Rightarrow> Some groups
      | None \<Rightarrow> version_search cs)"

text \<open>
  \<open>_parse_version\<close>: \<open>None\<close> without a match, else \<open>tuple(int(x) for x in m.groups())\<close>,
  where \<open>int\<close> may raise.
\<close>

definition parse_version :: "string \<Rightarrow> error + int list option" where
  "parse_version text =
     (case version_search text of
        None \<Rightarrow> Inr None
      | Some groups \<Rightarrow>
          (case try_map py_int groups of
             Inl e \<Rightarrow> Inl e
           | Inr v \<Rightarrow> Inr (Some v)))"

text \<open>Python's \<open><\<close> on tuples: the first differing component decides, then the length.\<close>

fun tuple_lt :: "int list \<Rightarrow> int list \<Rightarrow> bool" where
  "tuple_lt [] [] = False"
| "tuple_lt [] (y # ys) = True"
| "tuple_lt (x # xs) [] = False"
| "tuple_lt (x # xs) (y # ys) = (if x = y then tuple_lt xs ys else x < y)"

text \<open>
  Only the call of \<open>_run_silent\<close> is inside the \<open>try\<close>: an exception of
  \<open>_parse_version\<close> or of \<open>str\<close> leaves \<open>get_winget_state\<close>.  The version string is
  built before the status is decided.
\<close>

definition get_winget_state :: "run_outcome \<Rightarrow> error + WingetState \<times> string option" where
  "get_winget_state run =
     (case run of
        Raised \<Rightarrow> Inr (MISSING, None)
      | Completed result \<Rightarrow>
          if returncode result \<noteq> 0 then Inr (MISSING, None) else
          (let txt = strip (stdout result @ stderr result) in
           case parse_version txt of
             Inl e \<Rightarrow> Inl e
           | Inr ver_tuple \<Rightarrow>
               (case ver_tuple of
                  None \<Rightarrow> Inr (OK, if txt = [] then None else Some txt)
                | Some v \<Rightarrow>
                    (case try_map py_str v of
                       Inl e \<Rightarrow> Inl e
                     | Inr strs \<Rightarrow>
                         (let ver_str = Some (join ''.'' strs)
                          in if tuple_lt v MIN_WINGET_VERSION then Inr (OUTDATED, ver_str)
                             else Inr (OK, ver_str))))))"

section \<open>The environment of a run\<close>

text \<open>
  A process started with \<open>subprocess.Popen\<close>: the lines that iterating over its
  standard output yields (each with its line terminator), the exit code returned by
  \<open>wait()\<close>, and the text read from its standard error.
\<close>

record process =
  out_lines :: "string list"
  exit_code :: int
  err_text :: string

text \<open>
  What the functions read from the machine: whether the PowerShell script exists, its
  path and the path of the setup log as text, what \<open>subprocess.Popen\<close> and
  \<open>subprocess.run\<close> do for a command line (both raise when the executable cannot be
  started), and whether writing the setup log raises.
\<close>

record world =
  ps_exists :: bool
  ps_path :: string
  log_path :: string
  popen :: "string list \<Rightarrow> error + process"
  run :: "string list \<Rightarrow> error + CompletedProcess"
  log_write_raises :: bool

text \<open>The callback receives \<open>("line", text)\<close>, \<open>("start", id)\<close> and \<open>("ok", id)\<close>.\<close>

datatype event = EvLine string | EvStart string | EvOk string

type_synonym upgrade_record = "string \<times> string \<times> string \<times> string"

text \<open>What the final callback of the upgrade worker shows in the status line.\<close>

datatype upgrade_status =
    StatusNothingToUpgrade
  | StatusCounts bool nat nat
  | StatusNoSummary int

text \<open>
  Everything a function does to the outside, in order: processes started, calls of the
  event callback, files written (or a write that raised and was swallowed), and the user
  interface updates of the upgrade worker (or a scheduled callback of it that raises).
\<close>

datatype effect =
    Spawn "string list"
  | Callback event
  | WriteFile string string
  | WriteFailed string
  | UiStatusLine string
  | UiFinish upgrade_status
  | UiPopup "upgrade_record list" "upgrade_record list"
  | UiCallbackRaised error
  | UiReEnable

definition powershell_cmd :: "world \<Rightarrow> string list \<Rightarrow> string list" where
  "powershell_cmd w args =
     [''powershell.exe'', ''-NoLogo'', ''-NoProfile'', ''-ExecutionPolicy'', ''Bypass'',
      ''-File'', ps_path w] @ args"

section \<open>Setup: \<open>run_winget_ps_setup\<close>\<close>

definition setup_log_text :: "world \<Rightarrow> string list \<Rightarrow> CompletedProcess \<Rightarrow> string" where
  "setup_log_text w cmd result =
     ''Command : '' @ join '' '' cmd @ [LF] @
     ''PS1     : '' @ ps_path w @ [LF] @
     ''Return  : '' @ str_int (returncode result) @ [LF, LF] @
     ''=== STDOUT ==='' @ [LF] @ stdout result @
     [LF, LF] @ ''=== STDERR ==='' @ [LF] @ stderr result"

definition run_winget_ps_setup :: "world \<Rightarrow> (error + unit) \<times> effect list" where
  "run_winget_ps_setup w =
     (if \<not> ps_exists w
      then (Inl (FileNotFoundError (''Winget-Installscript nicht gefunden: '' @ ps_path w)), [])
      else
        (let cmd = powershell_cmd w [''-SetupWinget''] in
         case run w cmd of
           Inl e \<Rightarrow> (Inl e, [Spawn cmd])
         | Inr result \<Rightarrow>
             (let log = (if log_write_raises w then WriteFailed (log_path w)
                         else WriteFile (log_path w) (setup_log_text w cmd result));
                  effects = [Spawn cmd, log]
              in if returncode result \<noteq> 0 then
                   (let out = strip (stdout result);
                        err = strip (stderr result);
                        msg = (if err \<noteq> [] then err
                               else if out \<noteq> [] then out
                               else ''Winget-Setup Fehlercode '' @ str_int (returncode result))
                    in (Inl (RuntimeError
                              (msg @ [LF, LF] @ ''Details siehe Log-Datei:'' @ [LF] @ log_path w)),
                        effects))
                 else (Inr (), effects))))"

section \<open>Install: \<open>run_winget_ps_install\<close>\<close>

text \<open>
  The three marker patterns have the shape \<open>literal\s*(.+)$\<close>.  \<open>group_at\<close> is
  \<open>(.+)$\<close> at the start of a string: the dot does not match a line feed, and \<open>$\<close>
  holds at the end of the string or before a line feed that ends it.  \<open>tail_match k\<close>
  is \<open>\s*(.+)$\<close> where \<open>\s*\<close> takes \<open>k\<close> characters, then \<open>k - 1\<close>, down to none.
\<close>

definition group_at :: "string \<Rightarrow> string option" where
  "group_at t =
     (let matched = takeWhile (\<lambda>c. c \<noteq> LF) t; rest = dropWhile (\<lambda>c. c \<noteq> LF) t in
      if matched \<noteq> [] \<and> (rest = [] \<or> rest = [LF]) then Some matched else None)"

fun tail_match :: "nat \<Rightarrow> string \<Rightarrow> string option" where
  "tail_match 0 r = group_at r"
| "tail_match (Suc k) r =
     (case group_at (drop (Suc k) r) of
        Some g \<Rightarrow> Some g
      | None \<Rightarrow> tail_match k r)"

definition marker_at :: "string \<Rightarrow> string \<Rightarrow> string option" where
  "marker_at lit s =
     (if startswith s lit
      then (let r = drop (length lit) s in tail_match (length (takeWhile isspace r)) r)
      else None)"

text \<open>\<open>pattern.search(line)\<close>, giving \<open>m.group(1)\<close>: the leftmost position that matches.\<close>

fun re_search :: "string \<Rightarrow> string \<Rightarrow> string option" where
  "re_search lit [] = marker_at lit []"
| "re_search lit (c # cs) =
     (case marker_at lit (c # cs) of
        Some g \<Rightarrow> Some g
      | None \<Rightarrow> re_search lit cs)"

definition re_start :: string where "re_start = ''Installing app via winget:''"
definition re_ok :: string where "re_ok = ''App installed successfully:''"
definition re_failed :: string where "re_failed = ''FAILED_APPS:''"

text \<open>\<open>[s.strip() for s in tail.split(",") if s.strip()]\<close>.\<close>

definition failed_entries :: "string \<Rightarrow> string list" where
  "failed_entries tail = filter (\<lambda>s. s \<noteq> []) (map strip (split CHR '','' tail))"

record install_loop =
  installed :: "string list"
  failed_ids_from_summary :: "string list"
  calls :: "event list"

definition emit :: "bool \<Rightarrow> event \<Rightarrow> install_loop \<Rightarrow> install_loop" where
  "emit on_event ev st = (if on_event then st\<lparr>calls := calls st @ [ev]\<rparr> else st)"

text \<open>One pass of the loop over \<open>proc.stdout\<close>.  \<open>on_event\<close> tells whether a callback was given.\<close>

definition install_step :: "bool \<Rightarrow> install_loop \<Rightarrow> string \<Rightarrow> install_loop" where
  "install_step on_event st raw =
     (let line = rstrip_chars [CR, LF] raw;
          st1 = emit on_event (EvLine line) st
      in case re_search re_start line of
           Some g \<Rightarrow> emit on_event (EvStart (strip g)) st1
         | None \<Rightarrow>
             (case re_search re_ok line of
                Some g \<Rightarrow>
                  emit on_event (EvOk (strip g)) (st1\<lparr>installed := installed st1 @ [strip g]\<rparr>)
              | None \<Rightarrow>
                  (case re_search re_failed line of
                     Some g \<Rightarrow> st1\<lparr>failed_ids_from_summary := failed_entries (strip g)\<rparr>
                   | None \<Rightarrow> st1)))"

definition install_init :: install_loop where
  "install_init = \<lparr>installed = [], failed_ids_from_summary = [], calls = []\<rparr>"

definition failure_excerpt :: "string \<Rightarrow> string" where
  "failure_excerpt err =
     join [LF] (take 10 (splitlines (if strip err \<noteq> [] then strip err
                                     else ''Unbekannter Fehler'')))"

definition run_winget_ps_install ::
  "world \<Rightarrow> string list \<Rightarrow> bool \<Rightarrow> (error + string list \<times> string list) \<times> effect list" where
  "run_winget_ps_install w app_ids on_event =
     (if app_ids = [] then (Inr ([], []), [])
      else if \<not> ps_exists w
      then (Inl (FileNotFoundError (''Winget-Installscript nicht gefunden: '' @ ps_path w)), [])
      else
        (let cmd = powershell_cmd w app_ids in
         case popen w cmd of
           Inl e \<Rightarrow> (Inl e, [Spawn cmd])
         | Inr proc \<Rightarrow>
             (let st = foldl (install_step on_event) install_init (out_lines proc);
                  rc = exit_code proc;
                  failed = (if failed_ids_from_summary st \<noteq> [] then failed_ids_from_summary st
                            else []);
                  effects = Spawn cmd # map Callback (calls st)
              in if rc \<noteq> 0 \<and> failed = [] \<and> installed st = []
                 then (Inl (RuntimeError (''Winget-Installation ist fehlgeschlagen:'' @ [LF] @
                                          failure_excerpt (err_text proc))), effects)
                 else (Inr (installed st, failed), effects))))"

section \<open>Upgrade: the worker of \<open>_on_upgrade_all\<close>\<close>

record upgrade_loop =
  updated :: "upgrade_record list"
  not_updated :: "upgrade_record list"
  inside :: bool
  had_none :: bool

text \<open>
  \<open>parts = [p.strip() for p in payload.split("|")]\<close> and
  \<open>name, appid, cur, avail = (parts + ["", "", "", ""])[:4]\<close>.
\<close>

definition parse_fields :: "string \<Rightarrow> upgrade_record" where
  "parse_fields payload =
     (let parts = map strip (split CHR ''|'' payload);
          four = take 4 (parts @ [[], [], [], []])
      in (four ! 0, four ! 1, four ! 2, four ! 3))"

definition summary_step :: "upgrade_loop \<Rightarrow> string \<Rightarrow> upgrade_loop" where
  "summary_step st line =
     (if line = ''UPGRADE_SUMMARY_BEGIN'' then st\<lparr>inside := True\<rparr>
      else if line = ''UPGRADE_SUMMARY_END'' then st\<lparr>inside := False\<rparr>
      else if \<not> inside st then st
      else if line = ''UPGRADE_NONE'' then st\<lparr>had_none := True\<rparr>
      else if startswith line ''UPDATED_APP: ''
      then st\<lparr>updated := updated st @ [parse_fields (drop (length ''UPDATED_APP: '') line)]\<rparr>
      else if startswith line ''NOT_UPDATED_APP: ''
      then st\<lparr>not_updated :=
                 not_updated st @ [parse_fields (drop (length ''NOT_UPDATED_APP: '') line)]\<rparr>
      else st)"

definition summary_init :: upgrade_loop where
  "summary_init = \<lparr>updated = [], not_updated = [], inside = False, had_none = False\<rparr>"

definition parse_summary :: "string list \<Rightarrow> upgrade_loop" where
  "parse_summary stdout_lines = foldl summary_step summary_init stdout_lines"

text \<open>The first loop of the worker keeps the lines that are not empty after \<open>rstrip\<close>.\<close>

definition collect_lines :: "string list \<Rightarrow> string list" where
  "collect_lines raws = filter (\<lambda>l. l \<noteq> []) (map (rstrip_chars [CR, LF]) raws)"

definition finish :: "upgrade_loop \<Rightarrow> int \<Rightarrow> effect list" where
  "finish st rc =
     (let total_updated = length (updated st);
          total = total_updated + length (not_updated st)
      in if had_none st \<and> total = 0 then [UiFinish StatusNothingToUpgrade]
         else if total > 0
         then [UiFinish (StatusCounts (rc = 0) total_updated total),
               UiPopup (updated st) (not_updated st)]
         else [UiFinish (StatusNoSummary rc)])"

text \<open>
  When \<open>Popen\<close> raises, the handler schedules \<open>lambda: messagebox.showerror(..., exc)\<close>.
  The name \<open>exc\<close> is unbound when the \<open>except\<close> block ends, before the scheduled call
  runs, so the call raises \<open>NameError\<close> and shows no error box.
\<close>

definition upgrade_all_worker :: "world \<Rightarrow> upgrade_loop option \<times> effect list" where
  "upgrade_all_worker w =
     (let cmd = powershell_cmd w [''-UpgradeAll''] in
      case popen w cmd of
        Inl e \<Rightarrow> (None, [Spawn cmd, UiCallbackRaised NameError, UiReEnable])
      | Inr proc \<Rightarrow>
          (let stdout_lines = collect_lines (out_lines proc);
               st = parse_summary stdout_lines
           in (Some st,
               Spawn cmd # map (\<lambda>l. UiStatusLine (take 140 l)) stdout_lines
                 @ finish st (exit_code proc) @ [UiReEnable])))"

section \<open>Notions used to state the properties\<close>

text \<open>
  The line the install loop works on, and what the loop makes of it: a line counts as
  an \<open>Ok\<close> marker when the start pattern does not match and the ok pattern does, and
  as a \<open>FAILED_APPS\<close> marker when neither of the two matches and the failed pattern does.
\<close>

definition clean :: "string \<Rightarrow> string" where
  "clean raw = rstrip_chars [CR, LF] raw"

definition ok_marker :: "string \<Rightarrow> string option" where
  "ok_marker line =
     (if re_search re_start line \<noteq> None then None
      else map_option strip (re_search re_ok line))"

definition failed_marker :: "string \<Rightarrow> string list option" where
  "failed_marker line =
     (if re_search re_start line \<noteq> None \<or> re_search re_ok line \<noteq> None then None
      else map_option (\<lambda>g. failed_entries (strip g)) (re_search re_failed line))"

text \<open>The ids of the \<open>Ok\<close> markers in stream order, and the list of the last \<open>FAILED_APPS\<close> marker.\<close>

definition ok_ids :: "string list \<Rightarrow> string list" where
  "ok_ids lines = List.map_filter ok_marker lines"

definition last_failed :: "string list \<Rightarrow> string list" where
  "last_failed lines =
     (case rev (List.map_filter failed_marker lines) of [] \<Rightarrow> [] | es # _ \<Rightarrow> es)"

text \<open>Field \<open>i\<close> of a split payload; a field that is missing is the empty string.\<close>

definition field :: "string list \<Rightarrow> nat \<Rightarrow> string" where
  "field parts i = (if i < length parts then parts ! i else [])"

definition record_of :: "string \<Rightarrow> upgrade_record" where
  "record_of payload =
     (let parts = map strip (split CHR ''|'' payload)
      in (field parts 0, field parts 1, field parts 2, field parts 3))"

text \<open>The effects that write, or try to write, a file.\<close>

fun is_file_write :: "effect \<Rightarrow> bool" where
  "is_file_write (WriteFile p c) = True"
| "is_file_write (WriteFailed p) = True"
| "is_file_write e = False"

text \<open>Sample environments for the concrete runs below.\<close>

definition sample_world :: "string list \<Rightarrow> int \<Rightarrow> string \<Rightarrow> world" where
  "sample_world ls rc err =
     \<lparr>ps_exists = True, ps_path = ''winget-installscript.ps1'',
      log_path = ''winget-setup.log'',
      popen = (\<lambda>cmd. Inr \<lparr>out_lines = ls, exit_code = rc, err_text = err\<rparr>),
      run = (\<lambda>cmd. Inr \<lparr>returncode = rc, stdout = concat ls, stderr = err\<rparr>),
      log_write_raises = False\<rparr>"

definition nl :: "string \<Rightarrow> string" where
  "nl s = s @ [LF]"

definition sample_stderr :: string where
  "sample_stderr =
     nl ''e1'' @ nl ''e2'' @ nl ''e3'' @ nl ''e4'' @ nl ''e5'' @ nl ''e6'' @ nl ''e7''
     @ nl ''e8'' @ nl ''e9'' @ nl ''e10'' @ nl ''e11'' @ nl ''e12''"

section \<open>String and pattern lemmas\<close>

lemmas str_defs = strip_def lstrip_def rstrip_def rstrip_chars_def isspace_def isdigit_def
  is_linebreak_def LF_def CR_def nl_def

lemma startswith_append: "startswith (p @ s) p"
  by (induction p) auto

text \<open>
  On a line without line feed that starts with a marker literal followed by some text,
  the pattern matches at the start and the trimmed group is the trimmed text.
\<close>

lemma group_at_lf_free:
  assumes "LF \<notin> set t"
  shows "group_at t = (if t = [] then None else Some t)"
proof -
  have tw: "takeWhile (\<lambda>c. c \<noteq> LF) t = t"
    using assms by (induction t) auto
  have dw: "dropWhile (\<lambda>c. c \<noteq> LF) t = []"
    using assms by (induction t) auto
  show ?thesis
    unfolding group_at_def Let_def tw dw by simp
qed

lemma tail_match_lf_free:
  "LF \<notin> set r \<Longrightarrow> r \<noteq> [] \<Longrightarrow> k \<le> length r \<Longrightarrow>
     tail_match k r = Some (if k < length r then drop k r else [last r])"
proof (induction k)
  case 0
  then show ?case by (simp add: group_at_lf_free)
next
  case (Suc k)
  have lf: "LF \<notin> set (drop (Suc k) r)"
    using Suc.prems(1) by (meson in_set_dropD)
  show ?case
  proof (cases "Suc k < length r")
    case True
    then show ?thesis using lf by (simp add: group_at_lf_free)
  next
    case False
    with Suc.prems have eq: "length r = Suc k" by simp
    then have g: "group_at (drop (Suc k) r) = None" by (simp add: group_at_def)
    have k: "tail_match k r = Some (drop k r)"
      using Suc eq by simp
    have "r = butlast r @ [last r]"
      using Suc.prems(2) by simp
    moreover have "length (butlast r) = k"
      using eq by simp
    ultimately have d: "drop k r = [last r]"
      by (metis append_eq_conv_conj)
    have "tail_match (Suc k) r = Some [last r]"
      by (simp only: tail_match.simps g option.case k d)
    with False show ?thesis by simp
  qed
qed

lemma strip_all_space:
  assumes "\<forall>c \<in> set s. isspace c"
  shows "strip s = []"
proof -
  have d: "dropWhile isspace s = []"
    using assms by (simp add: dropWhile_eq_Nil_conv)
  show ?thesis
    unfolding strip_def lstrip_def rstrip_def d by simp
qed

lemma strip_lstrip: "strip (dropWhile isspace s) = strip s"
  by (simp add: strip_def lstrip_def)

lemma marker_payload:
  assumes "LF \<notin> set r" and "r \<noteq> []"
  shows "\<exists>g. tail_match (length (takeWhile isspace r)) r = Some g \<and> strip g = strip r"
proof (cases "length (takeWhile isspace r) < length r")
  case True
  have "drop (length (takeWhile isspace r)) r = dropWhile isspace r"
    by (metis append_eq_conv_conj takeWhile_dropWhile_id)
  with True assms show ?thesis
    by (simp add: tail_match_lf_free length_takeWhile_le strip_lstrip)
next
  case False
  then have len: "length (takeWhile isspace r) = length r"
    using length_takeWhile_le [of isspace r] by simp
  then have all: "takeWhile isspace r = r"
    by (metis takeWhile_eq_take take_all order_refl)
  then have sp: "\<forall>c \<in> set r. isspace c"
    by (metis set_takeWhileD)
  then have "isspace (last r)" using assms(2) by simp
  then have l: "strip [last r] = []" by (simp add: strip_all_space)
  have "tail_match (length r) r = Some [last r]"
    using tail_match_lf_free [OF assms, of "length r"] by simp
  with len l sp show ?thesis
    by (simp add: strip_all_space)
qed

lemma re_search_at_start:
  assumes "lit \<noteq> []" and "LF \<notin> set r" and "r \<noteq> []"
  shows "\<exists>g. re_search lit (lit @ r) = Some g \<and> strip g = strip r"
proof -
  from marker_payload [OF assms(2,3)] obtain g where
    g: "tail_match (length (takeWhile isspace r)) r = Some g" "strip g = strip r" by blast
  then have m: "marker_at lit (lit @ r) = Some g"
    by (simp add: marker_at_def startswith_append)
  obtain c cs where "lit @ r = c # cs" using assms(1) by (cases lit) auto
  with m g show ?thesis by simp
qed

lemma failed_marker_text:
  assumes "re_search re_start (re_failed @ r) = None"
    and "re_search re_ok (re_failed @ r) = None"
    and "LF \<notin> set r" and "r \<noteq> []"
  shows "failed_marker (re_failed @ r) = Some (failed_entries (strip r))"
proof -
  have "re_failed \<noteq> []" by (simp add: re_failed_def)
  from re_search_at_start [OF this assms(3,4)] obtain g where
    "re_search re_failed (re_failed @ r) = Some g" "strip g = strip r" by blast
  with assms(1,2) show ?thesis by (simp add: failed_marker_def)
qed

section \<open>Version check\<close>










lemmas version_eval = str_defs match_version_at_def parse_version_def py_int_def py_str_def
  int_max_str_digits_def int_of_digits_def digit_val_def Let_def








text \<open>
  C7.  When the probe returns exit code zero and its text holds no
  \<open>major.minor.patch\<close> pattern, the status is \<open>OK\<close> with the trimmed text as version
  string, or with no version string when the trimmed text is empty.  When the command
  returns another exit code, or cannot be run, the status is \<open>MISSING\<close>.
\<close>

theorem get_winget_state_unparsable:
  "(returncode r = 0 \<and> version_search (strip (stdout r @ stderr r)) = None
      \<longrightarrow> get_winget_state (Completed r)
            = Inr (OK, if strip (stdout r @ stderr r) = [] then None
                       else Some (strip (stdout r @ stderr r))))
   \<and> (returncode r \<noteq> 0 \<longrightarrow> get_winget_state (Completed r) = Inr (MISSING, None))
   \<and> get_winget_state Raised = Inr (MISSING, None)"
  by (simp add: get_winget_state_def parse_version_def Let_def)

theorem get_winget_state_unparsable_witness:
  "version_search (strip (nl '' preview build '' @ [])) = None
   \<and> get_winget_state (Completed \<lparr>returncode = 0, stdout = nl '' preview build '', stderr = []\<rparr>)
       = Inr (OK, Some ''preview build'')
   \<and> get_winget_state (Completed \<lparr>returncode = 0, stdout = nl '' '', stderr = []\<rparr>)
       = Inr (OK, None)
   \<and> get_winget_state (Completed \<lparr>returncode = 1, stdout = nl ''v1.12.0'', stderr = []\<rparr>)
       = Inr (MISSING, None)"
proof -
  have p1: "version_search (strip (nl '' preview build '' @ [])) = None"
    by (simp add: version_eval)
  have s1: "strip (nl '' preview build '' @ []) = ''preview build''"
    by (simp add: str_defs)
  have p2: "version_search (strip (nl '' '' @ [])) = None"
    by (simp add: version_eval)
  have s2: "strip (nl '' '' @ []) = []"
    by (simp add: str_defs)
  from get_winget_state_unparsable
         [of "\<lparr>returncode = 0, stdout = nl '' preview build '', stderr = []\<rparr>"] p1 s1
  have c1: "get_winget_state
              (Completed \<lparr>returncode = 0, stdout = nl '' preview build '', stderr = []\<rparr>)
            = Inr (OK, Some ''preview build'')"
    by simp
  from get_winget_state_unparsable [of "\<lparr>returncode = 0, stdout = nl '' '', stderr = []\<rparr>"] p2 s2
  have c2: "get_winget_state (Completed \<lparr>returncode = 0, stdout = nl '' '', stderr = []\<rparr>)
            = Inr (OK, None)"
    by simp
  from get_winget_state_unparsable [of "\<lparr>returncode = 1, stdout = nl ''v1.12.0'', stderr = []\<rparr>"]
  have c3: "get_winget_state (Completed \<lparr>returncode = 1, stdout = nl ''v1.12.0'', stderr = []\<rparr>)
            = Inr (MISSING, None)"
    by simp
  from p1 c1 c2 c3 show ?thesis by simp
qed

section \<open>Upgrade summary\<close>

lemma summary_noise_id:
  "\<not> inside st \<Longrightarrow> ''UPGRADE_SUMMARY_BEGIN'' \<notin> set noise \<Longrightarrow> foldl summary_step st noise = st"
proof (induction noise arbitrary: st)
  case Nil
  then show ?case by simp
next
  case (Cons l ls)
  from Cons.prems have "summary_step st l = st"
    by (cases st) (auto simp: summary_step_def)
  with Cons show ?case by simp
qed

lemmas summary_eval = parse_summary_def summary_init_def summary_step_def parse_fields_def
  str_defs

text \<open>
  C8.  Lines read while the inside flag is off, none of them the sentinel
  \<open>UPGRADE_SUMMARY_BEGIN\<close>, change neither list, whatever their prefix: the summary
  parsed from a stream with such lines inserted is the summary parsed without them.
\<close>

theorem summary_ignores_outside_noise:
  assumes "\<not> inside (parse_summary pre)"
    and "''UPGRADE_SUMMARY_BEGIN'' \<notin> set noise"
  shows "updated (parse_summary (pre @ noise)) = updated (parse_summary pre)
       \<and> not_updated (parse_summary (pre @ noise)) = not_updated (parse_summary pre)
       \<and> parse_summary (pre @ noise @ post) = parse_summary (pre @ post)"
  using assms by (simp add: parse_summary_def summary_noise_id)

theorem summary_ignores_outside_noise_witness:
  "\<not> inside (parse_summary [''UPDATED_APP: Early | E.Id'', ''UPGRADE_SUMMARY_BEGIN'',
                               ''UPDATED_APP: Foo | Foo.Id | 1.0 | 2.0'', ''UPGRADE_SUMMARY_END''])
   \<and> ''UPGRADE_SUMMARY_BEGIN'' \<notin> set [''UPDATED_APP: Late | L.Id'', ''NOT_UPDATED_APP: X | X.Id'']
   \<and> updated (parse_summary
        ([''UPDATED_APP: Early | E.Id'', ''UPGRADE_SUMMARY_BEGIN'',
          ''UPDATED_APP: Foo | Foo.Id | 1.0 | 2.0'', ''UPGRADE_SUMMARY_END'']
         @ [''UPDATED_APP: Late | L.Id'', ''NOT_UPDATED_APP: X | X.Id'']))
       = [(''Foo'', ''Foo.Id'', ''1.0'', ''2.0'')]
   \<and> not_updated (parse_summary
        ([''UPDATED_APP: Early | E.Id'', ''UPGRADE_SUMMARY_BEGIN'',
          ''UPDATED_APP: Foo | Foo.Id | 1.0 | 2.0'', ''UPGRADE_SUMMARY_END'']
         @ [''UPDATED_APP: Late | L.Id'', ''NOT_UPDATED_APP: X | X.Id'']))
       = []"
proof -
  let ?pre = "[''UPDATED_APP: Early | E.Id'', ''UPGRADE_SUMMARY_BEGIN'',
               ''UPDATED_APP: Foo | Foo.Id | 1.0 | 2.0'', ''UPGRADE_SUMMARY_END'']"
  let ?noise = "[''UPDATED_APP: Late | L.Id'', ''NOT_UPDATED_APP: X | X.Id'']"
  have h1: "\<not> inside (parse_summary ?pre)"
    by (simp add: summary_eval)
  have h2: "''UPGRADE_SUMMARY_BEGIN'' \<notin> set ?noise"
    by simp
  have u: "updated (parse_summary ?pre) = [(''Foo'', ''Foo.Id'', ''1.0'', ''2.0'')]"
    by (simp add: summary_eval)
  have n: "not_updated (parse_summary ?pre) = []"
    by (simp add: summary_eval)
  from summary_ignores_outside_noise [OF h1 h2, of "[]"] u n h1 h2
  show ?thesis by simp
qed

lemma take4_pad:
  "take 4 (parts @ [[], [], [], []]) = [field parts 0, field parts 1, field parts 2, field parts 3]"
  apply (cases parts; simp add: field_def)
  subgoal for a p1 apply (cases p1; simp)
    subgoal for b p2 apply (cases p2; simp)
      subgoal for c p3 by (cases p3; simp)
      done
    done
  done

lemma parse_fields_record_of: "parse_fields payload = record_of payload"
  unfolding parse_fields_def record_of_def Let_def take4_pad by simp

lemma step_updated:
  "inside st \<Longrightarrow> summary_step st (''UPDATED_APP: '' @ payload)
      = st\<lparr>updated := updated st @ [record_of payload]\<rparr>"
  unfolding summary_step_def
  by (simp del: startswith.simps
        add: parse_fields_record_of startswith_append[of "''UPDATED_APP: ''", simplified])

lemma step_not_updated:
  "inside st \<Longrightarrow> summary_step st (''NOT_UPDATED_APP: '' @ payload)
      = st\<lparr>not_updated := not_updated st @ [record_of payload]\<rparr>"
  unfolding summary_step_def
  by (simp add: parse_fields_record_of startswith_append[of "''NOT_UPDATED_APP: ''", simplified])

lemma fold_updated:
  "inside st \<Longrightarrow>
     foldl summary_step st (map (\<lambda>p. ''UPDATED_APP: '' @ p) ps)
       = st\<lparr>updated := updated st @ map record_of ps\<rparr>"
proof (induction ps arbitrary: st)
  case Nil
  then show ?case by simp
next
  case (Cons p ps)
  have "foldl summary_step st (map (\<lambda>p. ''UPDATED_APP: '' @ p) (p # ps))
          = foldl summary_step (st\<lparr>updated := updated st @ [record_of p]\<rparr>)
              (map (\<lambda>p. ''UPDATED_APP: '' @ p) ps)"
    using Cons.prems by (simp only: list.map foldl_Cons step_updated)
  also have "\<dots> = st\<lparr>updated := updated st @ map record_of (p # ps)\<rparr>"
    using Cons.prems by (subst Cons.IH) simp_all
  finally show ?case .
qed

lemma fold_not_updated:
  "inside st \<Longrightarrow>
     foldl summary_step st (map (\<lambda>p. ''NOT_UPDATED_APP: '' @ p) ps)
       = st\<lparr>not_updated := not_updated st @ map record_of ps\<rparr>"
proof (induction ps arbitrary: st)
  case Nil
  then show ?case by simp
next
  case (Cons p ps)
  have "foldl summary_step st (map (\<lambda>p. ''NOT_UPDATED_APP: '' @ p) (p # ps))
          = foldl summary_step (st\<lparr>not_updated := not_updated st @ [record_of p]\<rparr>)
              (map (\<lambda>p. ''NOT_UPDATED_APP: '' @ p) ps)"
    using Cons.prems by (simp only: list.map foldl_Cons step_not_updated)
  also have "\<dots> = st\<lparr>not_updated := not_updated st @ map record_of (p # ps)\<rparr>"
    using Cons.prems by (subst Cons.IH) simp_all
  finally show ?case .
qed

text \<open>
  C9.  Inside the block, a line \<open>UPDATED_APP: payload\<close> appends to the updated list the
  record made of the first four fields of the payload split at \<open>|\<close>, each trimmed, a
  missing field being the empty string; a line \<open>NOT_UPDATED_APP: payload\<close> does the
  same to the not-updated list; a run of such lines appends its records in line order.
\<close>

theorem summary_record_fields:
  assumes "inside st"
  shows "summary_step st (''UPDATED_APP: '' @ payload)
           = st\<lparr>updated := updated st @ [record_of payload]\<rparr>
       \<and> summary_step st (''NOT_UPDATED_APP: '' @ payload)
           = st\<lparr>not_updated := not_updated st @ [record_of payload]\<rparr>
       \<and> foldl summary_step st (map (\<lambda>p. ''UPDATED_APP: '' @ p) ps)
           = st\<lparr>updated := updated st @ map record_of ps\<rparr>
       \<and> foldl summary_step st (map (\<lambda>p. ''NOT_UPDATED_APP: '' @ p) ps)
           = st\<lparr>not_updated := not_updated st @ map record_of ps\<rparr>"
  using assms step_updated step_not_updated fold_updated fold_not_updated by blast

theorem summary_record_fields_witness:
  "inside (summary_init\<lparr>inside := True\<rparr>)
   \<and> updated (summary_step (summary_init\<lparr>inside := True\<rparr>)
                (''UPDATED_APP: '' @ '' Foo App | Foo.Id |1.0''))
       = [(''Foo App'', ''Foo.Id'', ''1.0'', [])]
   \<and> not_updated (summary_step (summary_init\<lparr>inside := True\<rparr>)
                (''NOT_UPDATED_APP: '' @ ''Bar|Bar.Id|1|2|extra''))
       = [(''Bar'', ''Bar.Id'', ''1'', ''2'')]
   \<and> updated (foldl summary_step (summary_init\<lparr>inside := True\<rparr>)
                (map (\<lambda>p. ''UPDATED_APP: '' @ p) [''A|a'', ''B|b'']))
       = [(''A'', ''a'', [], []), (''B'', ''b'', [], [])]"
proof -
  let ?st = "summary_init\<lparr>inside := True\<rparr>"
  have h: "inside ?st" by simp
  have r1: "record_of '' Foo App | Foo.Id |1.0'' = (''Foo App'', ''Foo.Id'', ''1.0'', [])"
    by (simp add: record_of_def field_def str_defs)
  have r2: "record_of ''Bar|Bar.Id|1|2|extra'' = (''Bar'', ''Bar.Id'', ''1'', ''2'')"
    by (simp add: record_of_def field_def str_defs)
  have r3: "map record_of [''A|a'', ''B|b''] = [(''A'', ''a'', [], []), (''B'', ''b'', [], [])]"
    by (simp add: record_of_def field_def str_defs)
  have u0: "updated ?st = []" "not_updated ?st = []"
    by (simp_all add: summary_init_def)
  from summary_record_fields [OF h, of "'' Foo App | Foo.Id |1.0''" "[''A|a'', ''B|b'']"]
       summary_record_fields [OF h, of "''Bar|Bar.Id|1|2|extra''" "[]"]
       r1 r2 r3 u0 h
  show ?thesis by simp
qed

section \<open>The install loop\<close>

lemmas install_eval = run_winget_ps_install_def sample_world_def powershell_cmd_def
  install_step_def install_init_def emit_def re_start_def re_ok_def re_failed_def
  marker_at_def group_at_def failed_entries_def failure_excerpt_def splitlines_def
  clean_def ok_marker_def failed_marker_def ok_ids_def last_failed_def
  List.map_filter_simps str_defs

lemma install_step_installed:
  "installed (install_step cb st raw)
     = installed st @ (case ok_marker (clean raw) of None \<Rightarrow> [] | Some i \<Rightarrow> [i])"
  by (simp add: install_step_def emit_def ok_marker_def clean_def Let_def split: option.splits)

lemma install_step_failed:
  "failed_ids_from_summary (install_step cb st raw)
     = (case failed_marker (clean raw) of None \<Rightarrow> failed_ids_from_summary st | Some es \<Rightarrow> es)"
  by (simp add: install_step_def emit_def failed_marker_def clean_def Let_def split: option.splits)

lemma map_filter_snoc:
  "List.map_filter f (xs @ [x]) = List.map_filter f xs @ (case f x of None \<Rightarrow> [] | Some y \<Rightarrow> [y])"
  by (simp add: List.map_filter_def split: option.splits)

lemma loop_installed:
  "installed (foldl (install_step cb) st raws) = installed st @ ok_ids (map clean raws)"
proof (induction raws rule: rev_induct)
  case Nil
  show ?case by (simp add: ok_ids_def List.map_filter_simps)
next
  case (snoc raw raws)
  then show ?case
    by (simp add: install_step_installed ok_ids_def map_filter_snoc)
qed

lemma loop_failed:
  "failed_ids_from_summary (foldl (install_step cb) st raws)
     = (case rev (List.map_filter failed_marker (map clean raws)) of
          [] \<Rightarrow> failed_ids_from_summary st
        | es # _ \<Rightarrow> es)"
proof (induction raws rule: rev_induct)
  case Nil
  show ?case by (simp add: List.map_filter_simps)
next
  case (snoc raw raws)
  then show ?case
    by (simp add: install_step_failed map_filter_snoc split: option.splits)
qed

lemma loop_failed_init:
  "failed_ids_from_summary (foldl (install_step cb) install_init raws)
     = last_failed (map clean raws)"
  by (simp add: loop_failed last_failed_def install_init_def split: list.splits)

lemma loop_installed_init:
  "installed (foldl (install_step cb) install_init raws) = ok_ids (map clean raws)"
  by (simp add: loop_installed install_init_def)

lemma run_result:
  assumes "app_ids \<noteq> []" and "ps_exists w"
    and "popen w (powershell_cmd w app_ids) = Inr proc"
  shows "fst (run_winget_ps_install w app_ids cb)
           = (if exit_code proc \<noteq> 0 \<and> last_failed (map clean (out_lines proc)) = []
                 \<and> ok_ids (map clean (out_lines proc)) = []
              then Inl (RuntimeError (''Winget-Installation ist fehlgeschlagen:'' @ [LF] @
                                       failure_excerpt (err_text proc)))
              else Inr (ok_ids (map clean (out_lines proc)),
                        last_failed (map clean (out_lines proc))))"
  using assms
  by (simp add: run_winget_ps_install_def Let_def loop_failed_init loop_installed_init)

lemma last_failed_none:
  "\<forall>l \<in> set ls. failed_marker l = None \<Longrightarrow> last_failed ls = []"
  by (induction ls) (simp_all add: last_failed_def List.map_filter_simps)

lemma ok_ids_none:
  "\<forall>l \<in> set ls. ok_marker l = None \<Longrightarrow> ok_ids ls = []"
  by (induction ls) (simp_all add: ok_ids_def List.map_filter_simps)

lemma last_failed_split:
  assumes "failed_marker l = Some es" and "\<forall>r \<in> set post. failed_marker r = None"
  shows "last_failed (pre @ l # post) = es"
proof -
  have "List.map_filter failed_marker post = []"
    using assms(2) by (induction post) (simp_all add: List.map_filter_simps)
  then have "List.map_filter failed_marker (pre @ l # post)
               = List.map_filter failed_marker pre @ [es]"
    using assms(1) by (simp add: List.map_filter_def)
  then show ?thesis by (simp add: last_failed_def)
qed

section \<open>Install results\<close>

text \<open>
  C1, in the form that holds of the code: when no line of the stream is a \<open>FAILED_APPS\<close> marker, a run that
  returns a result returns the ids of the \<open>Ok\<close> markers in stream order as succeeded
  list and the empty list as failed list; requested ids that were not marked \<open>Ok\<close>
  are not added to the failed list.
\<close>

theorem install_failed_empty_without_marker:
  assumes "app_ids \<noteq> []" and "ps_exists w"
    and "popen w (powershell_cmd w app_ids) = Inr proc"
    and "\<forall>raw \<in> set (out_lines proc). failed_marker (clean raw) = None"
    and "fst (run_winget_ps_install w app_ids cb) = Inr (succeeded, failed)"
  shows "succeeded = ok_ids (map clean (out_lines proc)) \<and> failed = []"
proof -
  have "last_failed (map clean (out_lines proc)) = []"
    using assms(4) by (intro last_failed_none) simp
  with run_result [OF assms(1-3), of cb] assms(5) show ?thesis
    by (simp split: if_splits)
qed

text \<open>
  The run of the specification's scenario: \<open>A.App\<close> is marked \<open>Ok\<close>, \<open>B.App\<close> is only
  started, the exit code is 1.  The failed list is empty, not \<open>["B.App"]\<close>.
\<close>

theorem install_failed_empty_without_marker_counterexample:
  "fst (run_winget_ps_install
          (sample_world [nl ''Installing app via winget: A.App'',
                         nl ''App installed successfully: A.App'',
                         nl ''Installing app via winget: B.App''] 1 [])
          [''A.App'', ''B.App''] True)
     = Inr ([''A.App''], [])
   \<and> fst (run_winget_ps_install
          (sample_world [nl ''Installing app via winget: A.App'',
                         nl ''App installed successfully: A.App'',
                         nl ''Installing app via winget: B.App''] 1 [])
          [''A.App'', ''B.App''] True)
     \<noteq> Inr ([''A.App''], [''B.App''])"
  by (simp add: install_eval Let_def)

theorem install_failed_empty_without_marker_witness:
  "[''A.App'', ''B.App''] \<noteq> []
   \<and> ps_exists (sample_world [nl ''Installing app via winget: A.App'',
                               nl ''App installed successfully: A.App'',
                               nl ''Installing app via winget: B.App''] 1 [])
   \<and> list_all (\<lambda>raw. failed_marker (clean raw) = None)
         [nl ''Installing app via winget: A.App'',
          nl ''App installed successfully: A.App'',
          nl ''Installing app via winget: B.App'']
   \<and> ok_ids (map clean [nl ''Installing app via winget: A.App'',
                          nl ''App installed successfully: A.App'',
                          nl ''Installing app via winget: B.App'']) = [''A.App'']
   \<and> fst (run_winget_ps_install
          (sample_world [nl ''Installing app via winget: A.App'',
                         nl ''App installed successfully: A.App'',
                         nl ''Installing app via winget: B.App''] 1 [])
          [''A.App'', ''B.App''] True)
     = Inr ([''A.App''], [])"
proof -
  let ?ls = "[nl ''Installing app via winget: A.App'',
              nl ''App installed successfully: A.App'',
              nl ''Installing app via winget: B.App'']"
  let ?w = "sample_world ?ls 1 []"
  let ?p = "\<lparr>out_lines = ?ls, exit_code = 1, err_text = []\<rparr>"
  have h1: "[''A.App'', ''B.App''] \<noteq> []" by simp
  have h2: "ps_exists ?w" by (simp add: sample_world_def)
  have h3: "popen ?w (powershell_cmd ?w [''A.App'', ''B.App'']) = Inr ?p"
    by (simp add: sample_world_def)
  have h4: "\<forall>raw \<in> set (out_lines ?p). failed_marker (clean raw) = None"
    by (simp add: install_eval)
  have h5: "fst (run_winget_ps_install ?w [''A.App'', ''B.App''] True) = Inr ([''A.App''], [])"
    by (simp add: install_eval Let_def)
  have ok: "ok_ids (map clean ?ls) = [''A.App'']"
    by (simp add: install_eval)
  from install_failed_empty_without_marker [OF h1 h2 h3 h4 h5] h1 h2 h4 h5 ok
  show ?thesis by simp
qed

text \<open>
  C2.  A run that exits with a non-zero code and whose stream holds neither an \<open>Ok\<close>
  marker nor a \<open>FAILED_APPS\<close> marker raises a \<open>RuntimeError\<close>; its message carries the
  first ten lines of the trimmed standard error (of the text \<open>Unbekannter Fehler\<close>
  when the trimmed standard error is empty).  It does not return two empty lists.
\<close>

theorem install_process_failure:
  assumes "app_ids \<noteq> []" and "ps_exists w"
    and "popen w (powershell_cmd w app_ids) = Inr proc"
    and "exit_code proc \<noteq> 0"
    and "\<forall>raw \<in> set (out_lines proc).
           ok_marker (clean raw) = None \<and> failed_marker (clean raw) = None"
  shows "fst (run_winget_ps_install w app_ids cb)
           = Inl (RuntimeError
                   (''Winget-Installation ist fehlgeschlagen:'' @ [LF] @
                    join [LF] (take 10 (splitlines
                      (if strip (err_text proc) \<noteq> [] then strip (err_text proc)
                       else ''Unbekannter Fehler'')))))
       \<and> fst (run_winget_ps_install w app_ids cb) \<noteq> Inr ([], [])"
proof -
  have "last_failed (map clean (out_lines proc)) = []"
    using assms(5) by (intro last_failed_none) simp
  moreover have "ok_ids (map clean (out_lines proc)) = []"
    using assms(5) by (intro ok_ids_none) simp
  ultimately show ?thesis
    using run_result [OF assms(1-3), of cb] assms(4)
    by (simp add: failure_excerpt_def)
qed

theorem install_process_failure_witness:
  "[''A.App''] \<noteq> []
   \<and> ps_exists (sample_world [nl ''winget : command not found''] 1 sample_stderr)
   \<and> list_all (\<lambda>raw. ok_marker (clean raw) = None \<and> failed_marker (clean raw) = None)
         [nl ''winget : command not found'']
   \<and> fst (run_winget_ps_install (sample_world [nl ''winget : command not found''] 1 sample_stderr)
            [''A.App''] True)
       = Inl (RuntimeError
               (nl ''Winget-Installation ist fehlgeschlagen:'' @ nl ''e1'' @ nl ''e2'' @ nl ''e3''
                @ nl ''e4'' @ nl ''e5'' @ nl ''e6'' @ nl ''e7'' @ nl ''e8'' @ nl ''e9'' @ ''e10''))"
proof -
  let ?ls = "[nl ''winget : command not found'']"
  let ?w = "sample_world ?ls 1 sample_stderr"
  let ?p = "\<lparr>out_lines = ?ls, exit_code = 1, err_text = sample_stderr\<rparr>"
  have h1: "[''A.App''] \<noteq> []" by simp
  have h2: "ps_exists ?w" by (simp add: sample_world_def)
  have h3: "popen ?w (powershell_cmd ?w [''A.App'']) = Inr ?p"
    by (simp add: sample_world_def)
  have h4: "exit_code ?p \<noteq> 0" by simp
  have h5: "\<forall>raw \<in> set (out_lines ?p).
              ok_marker (clean raw) = None \<and> failed_marker (clean raw) = None"
    by (simp add: install_eval)
  have ex: "join [LF] (take 10 (splitlines
              (if strip (err_text ?p) \<noteq> [] then strip (err_text ?p) else ''Unbekannter Fehler'')))
            = nl ''e1'' @ nl ''e2'' @ nl ''e3'' @ nl ''e4'' @ nl ''e5'' @ nl ''e6'' @ nl ''e7''
              @ nl ''e8'' @ nl ''e9'' @ ''e10''"
    by (simp add: sample_stderr_def splitlines_def str_defs)
  from install_process_failure [OF h1 h2 h3 h4 h5, of True] ex h1 h2 h5
  show ?thesis by (simp add: nl_def)
qed


text \<open>
  C3, in the form that holds of the code: the failed list of a returned result is the list of the last line
  of the stream that is a \<open>FAILED_APPS\<close> marker (a line on which neither the start
  pattern nor the ok pattern matches): its text after the marker, trimmed, split at
  commas, each entry trimmed and the empty ones dropped.  When that list is not empty
  the run returns it together with the ids of all \<open>Ok\<close> markers, whatever the exit
  code is.  An earlier \<open>FAILED_APPS\<close> line is overridden by a later one.
\<close>

theorem install_failed_from_last_marker:
  assumes "app_ids \<noteq> []" and "ps_exists w"
    and "popen w (powershell_cmd w app_ids) = Inr proc"
    and "out_lines proc = pre @ raw # post"
    and "re_search re_start (clean raw) = None"
    and "re_search re_ok (clean raw) = None"
    and "re_search re_failed (clean raw) = Some g"
    and "\<forall>r \<in> set post. failed_marker (clean r) = None"
  shows "(filter (\<lambda>s. s \<noteq> []) (map strip (split CHR '','' (strip g))) \<noteq> [] \<longrightarrow>
            fst (run_winget_ps_install w app_ids cb)
              = Inr (ok_ids (map clean (out_lines proc)),
                     filter (\<lambda>s. s \<noteq> []) (map strip (split CHR '','' (strip g)))))
       \<and> (\<forall>succeeded failed.
            fst (run_winget_ps_install w app_ids cb) = Inr (succeeded, failed) \<longrightarrow>
            failed = filter (\<lambda>s. s \<noteq> []) (map strip (split CHR '','' (strip g))))"
proof -
  let ?es = "filter (\<lambda>s. s \<noteq> []) (map strip (split CHR '','' (strip g)))"
  have m: "failed_marker (clean raw) = Some ?es"
    using assms(5-7) by (simp add: failed_marker_def failed_entries_def)
  have p: "\<forall>r \<in> set (map clean post). failed_marker r = None"
    using assms(8) by simp
  have "last_failed (map clean pre @ clean raw # map clean post) = ?es"
    by (rule last_failed_split [OF m p])
  then have "last_failed (map clean (out_lines proc)) = ?es"
    using assms(4) by simp
  with run_result [OF assms(1-3), of cb] show ?thesis
    by (simp split: if_splits)
qed

text \<open>
  A stream with two \<open>FAILED_APPS\<close> lines: the failed list is the list of the second
  line, not the entries \<open>a\<close>, \<open>b\<close> of the first.
\<close>

theorem install_failed_from_last_marker_counterexample:
  "fst (run_winget_ps_install
          (sample_world [nl ''FAILED_APPS: a, b'', nl ''FAILED_APPS: c''] 2 [])
          [''a'', ''b'', ''c''] True)
     = Inr ([], [''c''])
   \<and> filter (\<lambda>s. s \<noteq> []) (map strip (split CHR '','' ''a, b'')) = [''a'', ''b'']
   \<and> [''c''] \<noteq> [''a'', ''b'']"
  by (simp add: install_eval Let_def)

theorem install_failed_from_last_marker_witness:
  "[''x'', ''y'', ''a'', ''b''] \<noteq> []
   \<and> ps_exists (sample_world [nl ''App installed successfully: x'',
                               nl ''App installed successfully: y'',
                               nl ''FAILED_APPS: a, b''] 2 [])
   \<and> re_search re_start (clean (nl ''FAILED_APPS: a, b'')) = None
   \<and> re_search re_ok (clean (nl ''FAILED_APPS: a, b'')) = None
   \<and> re_search re_failed (clean (nl ''FAILED_APPS: a, b'')) = Some ''a, b''
   \<and> fst (run_winget_ps_install
          (sample_world [nl ''App installed successfully: x'',
                         nl ''App installed successfully: y'',
                         nl ''FAILED_APPS: a, b''] 2 [])
          [''x'', ''y'', ''a'', ''b''] True)
     = Inr ([''x'', ''y''], [''a'', ''b''])"
proof -
  let ?pre = "[nl ''App installed successfully: x'', nl ''App installed successfully: y'']"
  let ?raw = "nl ''FAILED_APPS: a, b''"
  let ?ls = "[nl ''App installed successfully: x'', nl ''App installed successfully: y'',
              nl ''FAILED_APPS: a, b'']"
  let ?w = "sample_world ?ls 2 []"
  let ?p = "\<lparr>out_lines = ?ls, exit_code = 2, err_text = []\<rparr>"
  have h1: "[''x'', ''y'', ''a'', ''b''] \<noteq> []" by simp
  have h2: "ps_exists ?w" by (simp add: sample_world_def)
  have h3: "popen ?w (powershell_cmd ?w [''x'', ''y'', ''a'', ''b'']) = Inr ?p"
    by (simp add: sample_world_def)
  have h4: "out_lines ?p = ?pre @ ?raw # []" by simp
  have h5: "re_search re_start (clean ?raw) = None" by (simp add: install_eval)
  have h6: "re_search re_ok (clean ?raw) = None" by (simp add: install_eval)
  have h7: "re_search re_failed (clean ?raw) = Some ''a, b''" by (simp add: install_eval)
  have h8: "\<forall>r \<in> set []. failed_marker (clean r) = None" by simp
  have es: "filter (\<lambda>s. s \<noteq> []) (map strip (split CHR '','' (strip ''a, b''))) = [''a'', ''b'']"
    by (simp add: str_defs)
  have ok: "ok_ids (map clean (out_lines ?p)) = [''x'', ''y'']"
    by (simp add: install_eval)
  from install_failed_from_last_marker [OF h1 h2 h3 h4 h5 h6 h7 h8, of True] es ok
  have "fst (run_winget_ps_install ?w [''x'', ''y'', ''a'', ''b''] True)
          = Inr ([''x'', ''y''], [''a'', ''b''])"
    by simp
  with h1 h2 h5 h6 h7 show ?thesis by simp
qed

text \<open>
  C4, in the form that holds of the code: a returned result holds the ids of the \<open>Ok\<close> markers and the list of
  the last \<open>FAILED_APPS\<close> marker as they are; no id is removed from either list.  The
  two lists are disjoint exactly when no id of an \<open>Ok\<close> marker is listed by the last
  \<open>FAILED_APPS\<close> marker of the stream.
\<close>

theorem install_lists_disjoint_iff:
  assumes "app_ids \<noteq> []" and "ps_exists w"
    and "popen w (powershell_cmd w app_ids) = Inr proc"
    and "fst (run_winget_ps_install w app_ids cb) = Inr (succeeded, failed)"
  shows "succeeded = ok_ids (map clean (out_lines proc))
       \<and> failed = last_failed (map clean (out_lines proc))
       \<and> (set succeeded \<inter> set failed = {}
            \<longleftrightarrow> set (ok_ids (map clean (out_lines proc)))
                  \<inter> set (last_failed (map clean (out_lines proc))) = {})"
  using run_result [OF assms(1-3), of cb] assms(4)
  by (simp split: if_splits)

text \<open>
  A stream that reports \<open>A.App\<close> as installed and lists it as failed: the result holds
  it in both lists.
\<close>

theorem install_lists_disjoint_iff_counterexample:
  "fst (run_winget_ps_install
          (sample_world [nl ''App installed successfully: A.App'', nl ''FAILED_APPS: A.App''] 0 [])
          [''A.App''] True)
     = Inr ([''A.App''], [''A.App''])
   \<and> set [''A.App''] \<inter> set [''A.App''] \<noteq> {}"
  by (simp add: install_eval Let_def)

theorem install_lists_disjoint_iff_witness:
  "[''A.App'', ''B.App''] \<noteq> []
   \<and> ps_exists (sample_world [nl ''App installed successfully: A.App'',
                               nl ''FAILED_APPS: B.App''] 1 [])
   \<and> fst (run_winget_ps_install
          (sample_world [nl ''App installed successfully: A.App'', nl ''FAILED_APPS: B.App''] 1 [])
          [''A.App'', ''B.App''] True)
     = Inr ([''A.App''], [''B.App''])
   \<and> ok_ids (map clean [nl ''App installed successfully: A.App'', nl ''FAILED_APPS: B.App''])
       = [''A.App'']
   \<and> last_failed (map clean [nl ''App installed successfully: A.App'', nl ''FAILED_APPS: B.App''])
       = [''B.App'']
   \<and> set [''A.App''] \<inter> set [''B.App''] = {}"
proof -
  let ?ls = "[nl ''App installed successfully: A.App'', nl ''FAILED_APPS: B.App'']"
  let ?w = "sample_world ?ls 1 []"
  let ?p = "\<lparr>out_lines = ?ls, exit_code = 1, err_text = []\<rparr>"
  have h1: "[''A.App'', ''B.App''] \<noteq> []" by simp
  have h2: "ps_exists ?w" by (simp add: sample_world_def)
  have h3: "popen ?w (powershell_cmd ?w [''A.App'', ''B.App'']) = Inr ?p"
    by (simp add: sample_world_def)
  have h4: "fst (run_winget_ps_install ?w [''A.App'', ''B.App''] True)
              = Inr ([''A.App''], [''B.App''])"
    by (simp add: install_eval Let_def)
  from install_lists_disjoint_iff [OF h1 h2 h3 h4] h1 h2 h4
  show ?thesis by simp
qed

text \<open>
  C10.  With an empty list of requested ids the install returns two empty lists and
  does nothing: no process is started and the callback is not called.  This holds also
  when the script file is missing, where a non-empty request raises
  \<open>FileNotFoundError\<close>.
\<close>

theorem install_empty_request:
  "run_winget_ps_install w [] on_event = (Inr ([], []), [])
   \<and> run_winget_ps_install (w\<lparr>ps_exists := False\<rparr>) [] on_event = (Inr ([], []), [])
   \<and> run_winget_ps_install (w\<lparr>ps_exists := False\<rparr>) (a # ids) on_event
       = (Inl (FileNotFoundError (''Winget-Installscript nicht gefunden: '' @ ps_path w)), [])"
  by (simp add: run_winget_ps_install_def)


section \<open>Log artifact\<close>

lemma filter_write_callbacks: "filter is_file_write (map Callback evs) = []"
  by (induction evs) simp_all

lemma filter_write_status: "filter is_file_write (map (\<lambda>l. UiStatusLine (f l)) ls) = []"
  by (induction ls) simp_all

lemma filter_write_finish: "filter is_file_write (finish st rc) = []"
  by (simp add: finish_def Let_def)

lemma install_no_file_write:
  "filter is_file_write (snd (run_winget_ps_install w app_ids cb)) = []"
  by (simp add: run_winget_ps_install_def Let_def filter_write_callbacks split: sum.splits)

lemma upgrade_no_file_write:
  "filter is_file_write (snd (upgrade_all_worker w)) = []"
  by (simp add: upgrade_all_worker_def Let_def filter_write_status filter_write_finish
           split: sum.splits)

lemma setup_result_independent_of_log:
  "fst (run_winget_ps_setup (w\<lparr>log_write_raises := b\<rparr>)) = fst (run_winget_ps_setup w)"
  by (simp add: run_winget_ps_setup_def powershell_cmd_def Let_def split: sum.splits)

text \<open>
  C5, in the form that holds of the code: the setup run writes a log file with the command line, the script
  path, the exit code and the captured standard output and standard error; when writing
  it raises, the exception is swallowed and the outcome of the setup is the same.  The
  install run and the upgrade worker write no file.
\<close>

theorem log_artifact_setup_only:
  assumes "ps_exists w"
    and "run w (powershell_cmd w [''-SetupWinget'']) = Inr result"
  shows "filter is_file_write (snd (run_winget_ps_setup w))
           = [if log_write_raises w then WriteFailed (log_path w)
              else WriteFile (log_path w)
                     (''Command : '' @ join '' '' (powershell_cmd w [''-SetupWinget'']) @ [LF] @
                      ''PS1     : '' @ ps_path w @ [LF] @
                      ''Return  : '' @ str_int (returncode result) @ [LF, LF] @
                      ''=== STDOUT ==='' @ [LF] @ stdout result @
                      [LF, LF] @ ''=== STDERR ==='' @ [LF] @ stderr result)]
       \<and> fst (run_winget_ps_setup (w\<lparr>log_write_raises := True\<rparr>))
           = fst (run_winget_ps_setup (w\<lparr>log_write_raises := False\<rparr>))
       \<and> filter is_file_write (snd (run_winget_ps_install w app_ids cb)) = []
       \<and> filter is_file_write (snd (upgrade_all_worker w)) = []"
proof -
  have "filter is_file_write (snd (run_winget_ps_setup w))
          = [if log_write_raises w then WriteFailed (log_path w)
             else WriteFile (log_path w) (setup_log_text w (powershell_cmd w [''-SetupWinget'']) result)]"
    using assms by (simp add: run_winget_ps_setup_def Let_def)
  then show ?thesis
    by (simp add: setup_log_text_def setup_result_independent_of_log
          install_no_file_write upgrade_no_file_write)
qed

text \<open>
  An install run and an upgrade run: the effects of the install are the process and
  the two callback calls, and neither run writes a file.
\<close>

theorem log_artifact_setup_only_counterexample:
  "snd (run_winget_ps_install
          (sample_world [nl ''App installed successfully: A.App''] 0 []) [''A.App''] True)
     = [Spawn [''powershell.exe'', ''-NoLogo'', ''-NoProfile'', ''-ExecutionPolicy'', ''Bypass'',
               ''-File'', ''winget-installscript.ps1'', ''A.App''],
        Callback (EvLine ''App installed successfully: A.App''),
        Callback (EvOk ''A.App'')]
   \<and> filter is_file_write
        (snd (run_winget_ps_install
                (sample_world [nl ''App installed successfully: A.App''] 0 []) [''A.App''] True))
     = []
   \<and> filter is_file_write
        (snd (upgrade_all_worker (sample_world [nl ''UPGRADE_SUMMARY_BEGIN'', nl ''UPGRADE_NONE'',
                                                nl ''UPGRADE_SUMMARY_END''] 0 [])))
     = []"
  by (simp add: install_eval upgrade_all_worker_def collect_lines_def finish_def summary_eval Let_def)

theorem log_artifact_setup_only_witness:
  "ps_exists (sample_world [nl ''setup output''] 3 (nl ''setup failed''))
   \<and> snd (run_winget_ps_setup (sample_world [nl ''setup output''] 3 (nl ''setup failed'')))
       = [Spawn [''powershell.exe'', ''-NoLogo'', ''-NoProfile'', ''-ExecutionPolicy'', ''Bypass'',
                 ''-File'', ''winget-installscript.ps1'', ''-SetupWinget''],
          WriteFile ''winget-setup.log''
            (nl ''Command : powershell.exe -NoLogo -NoProfile -ExecutionPolicy Bypass -File winget-installscript.ps1 -SetupWinget''
             @ nl ''PS1     : winget-installscript.ps1''
             @ nl ''Return  : 3'' @ nl []
             @ nl ''=== STDOUT ==='' @ nl ''setup output'' @ nl [] @ nl []
             @ nl ''=== STDERR ==='' @ nl ''setup failed'')]
   \<and> fst (run_winget_ps_setup
            ((sample_world [nl ''setup output''] 3 (nl ''setup failed''))\<lparr>log_write_raises := True\<rparr>))
       = Inl (RuntimeError (nl ''setup failed'' @ nl [] @ nl ''Details siehe Log-Datei:''
                            @ ''winget-setup.log''))"
proof -
  let ?w = "sample_world [nl ''setup output''] 3 (nl ''setup failed'')"
  let ?r = "\<lparr>returncode = 3, stdout = concat [nl ''setup output''], stderr = nl ''setup failed''\<rparr>"
  have h1: "ps_exists ?w" by (simp add: sample_world_def)
  have h2: "run ?w (powershell_cmd ?w [''-SetupWinget'']) = Inr ?r"
    by (simp add: sample_world_def)
  have e: "snd (run_winget_ps_setup ?w)
             = [Spawn [''powershell.exe'', ''-NoLogo'', ''-NoProfile'', ''-ExecutionPolicy'', ''Bypass'',
                       ''-File'', ''winget-installscript.ps1'', ''-SetupWinget''],
                WriteFile ''winget-setup.log''
                  (nl ''Command : powershell.exe -NoLogo -NoProfile -ExecutionPolicy Bypass -File winget-installscript.ps1 -SetupWinget''
                   @ nl ''PS1     : winget-installscript.ps1''
                   @ nl ''Return  : 3'' @ nl []
                   @ nl ''=== STDOUT ==='' @ nl ''setup output'' @ nl [] @ nl []
                   @ nl ''=== STDERR ==='' @ nl ''setup failed'')]"
    by (simp add: run_winget_ps_setup_def sample_world_def powershell_cmd_def setup_log_text_def
          str_int_def str_nat.simps str_defs Let_def)
  have f: "fst (run_winget_ps_setup (?w\<lparr>log_write_raises := False\<rparr>))
             = Inl (RuntimeError (nl ''setup failed'' @ nl [] @ nl ''Details siehe Log-Datei:''
                                  @ ''winget-setup.log''))"
    by (simp add: run_winget_ps_setup_def sample_world_def powershell_cmd_def str_defs Let_def)
  from log_artifact_setup_only [OF h1 h2] f e h1
  show ?thesis by simp
qed


end
